theory Spec2Isabelle
  imports Main "HOL-Library.Word"
begin

unbundle bit_operations_syntax

section \<open>The Plasion disk read driver (src/disk/plasiondiskreaddriver.cpp)\<close>

type_synonym byte = "8 word"

text \<open>
  The constants \<open>readLogicalDiskAligned\<close> reads but does not declare: the pair returned
  by \<open>getBlockSizeBounds()\<close> (minimum granularity first, maximum block size second),
  \<open>SectorSize\<close>, and the command byte \<open>CommandType::HostPC_from_SDCC1\<close>. They are
  parameters of the model. Their declarations are not among the sources, so their widths
  are assumptions: the two bounds are taken as unsigned 32-bit values, which the
  comparisons promote to 64 bits (the counter \<open>copied\<close> that is compared with the
  length has that width), and \<open>SectorSize\<close> as an unsigned 64-bit value.
\<close>

record driver_consts =
  getBlockSizeBounds :: "32 word \<times> 32 word"
  SectorSize :: "64 word"
  HostPC_from_SDCC1 :: byte

text \<open>
  A message handed to the callback. \<open>std::dynamic_pointer_cast<NeoReadMemorySDMessage>\<close>
  yields the message with its \<open>data\<close> vector, or null for anything else.
\<close>

datatype message = NeoReadMemorySDMessage (data: "byte list") | OtherMessage

text \<open>
  A \<open>std::vector<uint8_t>\<close> holds at most \<open>max_size()\<close> bytes, which on a 64-bit
  platform is below \<open>2 ^ 63\<close>; \<open>well_formed\<close> says that of a message's payload.
\<close>

definition max_size :: nat where
  "max_size = 2 ^ 63 - 1"

definition well_formed :: "message \<Rightarrow> bool" where
  "well_formed m =
     (case m of NeoReadMemorySDMessage d \<Rightarrow> length d \<le> max_size | OtherMessage \<Rightarrow> True)"

definition payload_size :: "message \<Rightarrow> nat" where
  "payload_size m = (case m of NeoReadMemorySDMessage d \<Rightarrow> length d | OtherMessage \<Rightarrow> 0)"

text \<open>The network a message filter selects; the driver filters on \<open>NetID::NeoMemorySDRead\<close>.\<close>

datatype NetID = NeoMemorySDRead | OtherNetID

text \<open>
  Modelled from the spec: the \<open>Communication\<close> class is not among the sources. Its
  callback registry is the list of subscriptions (id and filter) in subscription order,
  with the counter that issues the next id; \<open>written\<close> lists the frames handed to the
  transport so far, oldest first.
\<close>

record communication =
  messageCallbacks :: "(nat \<times> NetID) list"
  nextCallbackId :: nat
  written :: "byte list list"

text \<open>
  Modelled from the spec: \<open>Communication::addMessageCallback\<close> is not among the sources.
  Subscribing appends a subscription; its id is unique for the registry's lifetime, issued
  monotonically and never reused.
\<close>

definition addMessageCallback :: "communication \<Rightarrow> NetID \<Rightarrow> nat \<times> communication" where
  "addMessageCallback com flt =
     (nextCallbackId com,
      com\<lparr>messageCallbacks := messageCallbacks com @ [(nextCallbackId com, flt)],
          nextCallbackId := Suc (nextCallbackId com)\<rparr>)"

text \<open>
  Modelled from the spec: \<open>Communication::removeMessageCallback\<close> is not among the
  sources. Unsubscribing removes the subscription with the given id if present and is a
  no-op otherwise.
\<close>

definition removeMessageCallback :: "communication \<Rightarrow> nat \<Rightarrow> communication" where
  "removeMessageCallback com cbid =
     com\<lparr>messageCallbacks := filter (\<lambda>s. fst s \<noteq> cbid) (messageCallbacks com)\<rparr>"

text \<open>
  Modelled from the spec: \<open>Communication::rawWrite\<close> is not among the sources. It hands
  one frame to the transport.
\<close>

definition rawWrite :: "communication \<Rightarrow> byte list \<Rightarrow> communication" where
  "rawWrite com bytes = com\<lparr>written := written com @ [bytes]\<rparr>"

text \<open>
  The variables the callback closure shares with the waiting caller: the 32-bit counter
  \<open>copied\<close>, the flag \<open>error\<close>, and the memory the pointer \<open>into\<close> addresses, as a map
  from the byte offset relative to \<open>into\<close> to the byte stored there. \<open>start\<close> is their
  state when the callback is registered (lines 29 and 30).
\<close>

record transaction =
  copied :: "32 word"
  error :: bool
  into :: "nat \<Rightarrow> byte"

definition start :: "(nat \<Rightarrow> byte) \<Rightarrow> transaction" where
  "start dst = \<lparr>copied = 0, error = False, into = dst\<rparr>"

definition memcpy :: "(nat \<Rightarrow> byte) \<Rightarrow> nat \<Rightarrow> byte list \<Rightarrow> nat \<Rightarrow> byte" where
  "memcpy mem off src = (\<lambda>i. if off \<le> i \<and> i < off + length src then src ! (i - off) else mem i)"

text \<open>
  The callback (lines 32 to 49). \<open>data.size()\<close> is a 64-bit \<open>size_t\<close>, to which
  \<open>copied\<close> is promoted before the addition; the cast \<open>uint32_t(data.size())\<close> keeps the
  low 32 bits. The second component of the result tells whether this invocation called
  \<open>cv.notify_all()\<close>.
\<close>

definition cb :: "64 word \<Rightarrow> message \<Rightarrow> transaction \<Rightarrow> transaction \<times> bool" where
  "cb amount msg t =
     (case msg of
        OtherMessage \<Rightarrow> (t\<lparr>error := True\<rparr>, True)
      | NeoReadMemorySDMessage d \<Rightarrow>
          if amount < ucast (copied t) + of_nat (length d)
          then (t\<lparr>error := True\<rparr>, True)
          else
            let t' = t\<lparr>into := memcpy (into t) (unat (copied t)) d,
                       copied := copied t + of_nat (length d)\<rparr>
            in (t', ucast (copied t') = amount))"

text \<open>
  The messages the registry hands to the callback, one after the other, each invocation
  running under the mutex.
\<close>

fun deliver :: "64 word \<Rightarrow> message list \<Rightarrow> transaction \<Rightarrow> transaction" where
  "deliver amount [] t = t"
| "deliver amount (m # ms) t = deliver amount ms (fst (cb amount m t))"

text \<open>The predicate \<open>cv.wait_for\<close> waits on (line 61).\<close>

definition wait_pred :: "64 word \<Rightarrow> transaction \<Rightarrow> bool" where
  "wait_pred amount t = (error t \<or> ucast (copied t) = amount)"

text \<open>
  \<open>amount % getBlockSizeBounds().first\<close> and \<open>pos / SectorSize\<close> are undefined in C++
  when the divisor is zero, and so is signed arithmetic that leaves the range of its type;
  the model reports either instead of HOL's value.
\<close>

datatype fault = DivisionByZero | SignedOverflow

text \<open>The initializer list passed to \<open>rawWrite\<close> (lines 51 to 59).\<close>

definition frame :: "byte \<Rightarrow> 32 word \<Rightarrow> 64 word \<Rightarrow> byte list" where
  "frame opcode sector amount =
     [opcode,
      ucast (sector AND 0xFF),
      ucast (drop_bit 8 sector AND 0xFF),
      ucast (drop_bit 16 sector AND 0xFF),
      ucast (drop_bit 24 sector AND 0xFF),
      ucast (amount AND 0xFF),
      ucast (drop_bit 8 amount AND 0xFF)]"

text \<open>
  \<open>readLogicalDiskAligned\<close>. The argument \<open>arrivals\<close> stands for the timing of the
  environment: it lists the messages the registry delivered to the callback between its
  registration and the moment \<open>cv.wait_for\<close> evaluated its predicate for the last time
  (after a wake-up or when the timeout expired); the dispatching thread may run the
  callback again before a woken waiter has the mutex back, so the list may go on after
  the predicate has become true. \<open>wait_for\<close> returns the value of the predicate at that
  moment. The result is the returned \<open>optional<uint64_t>\<close>, the communication object and
  the memory behind \<open>into\<close> as the call leaves them.
\<close>

definition readLogicalDiskAligned ::
  "driver_consts \<Rightarrow> communication \<Rightarrow> 64 word \<Rightarrow> (nat \<Rightarrow> byte) \<Rightarrow> 64 word \<Rightarrow> message list
     \<Rightarrow> fault + (64 word option \<times> communication \<times> (nat \<Rightarrow> byte))" where
  "readLogicalDiskAligned k com pos dst amount arrivals =
     (if amount > ucast (snd (getBlockSizeBounds k)) then Inr (None, com, dst)
      else if fst (getBlockSizeBounds k) = 0 then Inl DivisionByZero
      else if amount mod ucast (fst (getBlockSizeBounds k)) \<noteq> 0 then Inr (None, com, dst)
      else if pos mod ucast (fst (getBlockSizeBounds k)) \<noteq> 0 then Inr (None, com, dst)
      else if SectorSize k = 0 then Inl DivisionByZero
      else
        let largeSector = pos div SectorSize k;
            sector = (ucast largeSector :: 32 word)
        in if largeSector \<noteq> ucast sector then Inr (None, com, dst)
           else
             let (cbid, com1) = addMessageCallback com NeoMemorySDRead;
                 com2 = rawWrite com1 (frame (HostPC_from_SDCC1 k) sector amount);
                 t = deliver amount arrivals (start dst);
                 hitTimeout = (\<not> wait_pred amount t);
                 com3 = removeMessageCallback com2 cbid
             in if hitTimeout then Inr (None, com3, into t)
                else Inr (Some amount, com3, into t))"

text \<open>
  A request passes validation when none of the four early returns (lines 13 to 25) is
  taken and both divisions are defined.
\<close>

definition validated :: "driver_consts \<Rightarrow> 64 word \<Rightarrow> 64 word \<Rightarrow> bool" where
  "validated k pos amount \<longleftrightarrow>
     fst (getBlockSizeBounds k) \<noteq> 0 \<and> SectorSize k \<noteq> 0 \<and>
     unat amount \<le> unat (snd (getBlockSizeBounds k)) \<and>
     unat amount mod unat (fst (getBlockSizeBounds k)) = 0 \<and>
     unat pos mod unat (fst (getBlockSizeBounds k)) = 0 \<and>
     unat pos div unat (SectorSize k) < 2 ^ 32"

text \<open>
  Little-endian byte strings, as the wire format words them: the \<open>n\<close> low-order bytes of
  a number, least significant first, and the number a byte string stands for.
\<close>

fun le_bytes :: "nat \<Rightarrow> nat \<Rightarrow> byte list" where
  "le_bytes 0 v = []"
| "le_bytes (Suc n) v = of_nat (v mod 256) # le_bytes n (v div 256)"

fun from_le :: "byte list \<Rightarrow> nat" where
  "from_le [] = 0"
| "from_le (b # bs) = unat b + 256 * from_le bs"

text \<open>
  A configuration and an idle communication object to run the driver on: granularity 512,
  maximum block 8192, sectors of 512 bytes; the command byte is an arbitrary example.
\<close>

definition example_consts :: driver_consts where
  "example_consts =
     \<lparr>getBlockSizeBounds = (512, 8192), SectorSize = 512, HostPC_from_SDCC1 = 0xE0\<rparr>"

definition idle_com :: communication where
  "idle_com = \<lparr>messageCallbacks = [], nextCallbackId = 0, written = []\<rparr>"


section \<open>The CAN packet layout (src/include/icsneo/communication/packet/canpacket.h)\<close>

text \<open>
  \<open>typedef uint16_t icscm_bitfield\<close>: the bit-fields of a block share 16-bit units. A
  block is the list of its bit-fields in declaration order, each with its width;
  \<open>bit_ranges\<close> numbers the bits in that order, giving each field its first bit and its
  width.
\<close>

definition icscm_bitfield_bits :: nat where
  "icscm_bitfield_bits = 16"

definition dlc_block :: "(string \<times> nat) list" where
  "dlc_block =
     [(''DLC'', 4), (''RB0'', 1), (''IVRIF'', 1), (''HVEnable'', 1),
      (''ExtendedNetworkIndexBit'', 1), (''RB1'', 1), (''RTR'', 1), (''EID2'', 6)]"

fun bit_ranges :: "nat \<Rightarrow> (string \<times> nat) list \<Rightarrow> (string \<times> nat \<times> nat) list" where
  "bit_ranges off [] = []"
| "bit_ranges off ((name, w) # fs) = (name, off, w) # bit_ranges (off + w) fs"

section \<open>TTY numbers and device handles (src/platform/posix/linux/cdcacmlinux.cpp)\<close>

text \<open>
  \<open>neodevice_handle_t\<close> is declared outside the sources; it is taken as a signed 32-bit
  integer, the width of the \<open>int\<close> that \<open>HandleToTTY\<close> casts to. \<open>HANDLE_OFFSET\<close> is
  the constant of line 21.
\<close>

definition HANDLE_OFFSET :: "32 word" where
  "HANDLE_OFFSET = 10"

definition isdigit :: "char \<Rightarrow> bool" where
  "isdigit c \<longleftrightarrow> 48 \<le> (of_char c :: nat) \<and> (of_char c :: nat) \<le> 57"

text \<open>The loop of lines 180 to 184: the index of the first digit, or the length if none.\<close>

fun first_digit :: "string \<Rightarrow> nat" where
  "first_digit [] = 0"
| "first_digit (c # cs) = (if isdigit c then 0 else Suc (first_digit cs))"

definition digit_value :: "char \<Rightarrow> nat" where
  "digit_value c = of_char c - 48"

text \<open>
  \<open>std::stoul\<close> in base 10 on a string that is empty or begins with a digit, which is
  all \<open>Find\<close> passes to it: the longest prefix of digits is converted; no digit at all
  throws \<open>invalid_argument\<close> and a value beyond the 64-bit \<open>unsigned long\<close> throws
  \<open>out_of_range\<close>, both \<open>None\<close> here.
\<close>

definition stoul :: "string \<Rightarrow> nat option" where
  "stoul s =
     (let ds = takeWhile isdigit s
      in if ds = [] then None
         else let v = foldl (\<lambda>a c. 10 * a + digit_value c) 0 ds
              in if v < 2 ^ 64 then Some v else None)"

text \<open>
  Lines 179 to 194 of \<open>CDCACM::Find\<close>: the handle stored for the device found at \<open>tty\<close>,
  or \<open>None\<close> when the \<open>catch\<close> tosses the device. The cast to \<open>neodevice_handle_t\<close>
  keeps the low 32 bits; the addition is signed.
\<close>

definition Find_handle :: "string \<Rightarrow> fault + 32 word option" where
  "Find_handle tty =
     (case stoul (drop (first_digit tty) tty) of
        None \<Rightarrow> Inr None
      | Some v \<Rightarrow>
          let h = (of_nat v :: 32 word)
          in if sint h + sint HANDLE_OFFSET > 2 ^ 31 - 1 then Inl SignedOverflow
             else Inr (Some (h + HANDLE_OFFSET)))"

text \<open>What \<open>operator<<\<close> prints for an \<open>int\<close>: decimal digits, with a sign when negative.\<close>

definition digit_char :: "nat \<Rightarrow> char" where
  "digit_char d = ''0123456789'' ! d"

fun show_nat :: "nat \<Rightarrow> string" where
  "show_nat n =
     (if n < 10 then [digit_char n] else show_nat (n div 10) @ [digit_char (n mod 10)])"

declare show_nat.simps [simp del]

definition show_int :: "int \<Rightarrow> string" where
  "show_int i = (if i < 0 then CHR ''-'' # show_nat (nat (- i)) else show_nat (nat i))"

text \<open>\<open>CDCACM::HandleToTTY\<close> (lines 208 to 212).\<close>

definition HandleToTTY :: "32 word \<Rightarrow> fault + string" where
  "HandleToTTY handle =
     (if sint handle - sint HANDLE_OFFSET < - (2 ^ 31) then Inl SignedOverflow
      else Inr (''/dev/ttyACM'' @ show_int (sint handle - sint HANDLE_OFFSET)))"

section \<open>Word arithmetic of the driver\<close>

lemma u32_lt: "unat (w :: 32 word) < 2 ^ 32"
  using unsigned_less [of w] by simp

lemma unat_ucast_32_64: "unat (ucast (w :: 32 word) :: 64 word) = unat w"
proof -
  have "unat w < 2 ^ 64" using u32_lt [of w] by simp
  then show ?thesis by (simp add: unsigned_ucast_eq take_bit_nat_eq_self)
qed

lemma gt_max_iff: "(amount > (ucast (m :: 32 word) :: 64 word)) = (unat m < unat amount)"
  by (simp add: word_less_nat_alt unat_ucast_32_64)

lemma mod_min_iff:
  "((x :: 64 word) mod ucast (m :: 32 word) \<noteq> 0) = (unat x mod unat m \<noteq> 0)"
  by (simp add: unat_0_iff [symmetric] unat_mod unat_ucast_32_64)

lemma sector_fits_iff:
  "((x :: 64 word) \<noteq> ucast (ucast x :: 32 word)) = (\<not> unat x < 2 ^ 32)"
proof -
  have "unat (ucast (ucast x :: 32 word) :: 64 word) = unat x mod 2 ^ 32"
    by (simp add: unat_ucast_32_64 unsigned_ucast_eq take_bit_eq_mod unat_mod)
  then have "(x = ucast (ucast x :: 32 word)) = (unat x = unat x mod 2 ^ 32)"
    by (metis word_unat_eq_iff)
  also have "\<dots> = (unat x < 2 ^ 32)"
    by (metis mod_less mod_less_divisor zero_less_numeral zero_less_power)
  finally show ?thesis by simp
qed

lemma sector_value:
  "unat (ucast ((pos :: 64 word) div s) :: 32 word) = (unat pos div unat s) mod 2 ^ 32"
  by (simp add: unsigned_ucast_eq take_bit_eq_mod unat_div)

lemma sum64: "unat (ucast (c :: 32 word) + of_nat l :: 64 word) = (unat c + l) mod 2 ^ 64"
  by (simp add: unat_word_ariths unat_ucast_32_64 unat_of_nat mod_add_right_eq)

lemma sum32: "unat (c + of_nat l :: 32 word) = (unat c + l) mod 2 ^ 32"
  by (simp add: unat_word_ariths unat_of_nat mod_add_right_eq)

lemma ucast_eq_iff: "((ucast (c :: 32 word) :: 64 word) = a) = (unat c = unat a)"
  by (metis unat_ucast_32_64 word_unat_eq_iff)

lemma max_lt: "unat amount \<le> unat (snd (getBlockSizeBounds k)) \<Longrightarrow> unat amount < 2 ^ 32"
  using u32_lt [of "snd (getBlockSizeBounds k)"] by simp

section \<open>The command frame is little-endian\<close>

lemma of_nat_mod_256: "(of_nat (v mod 256) :: byte) = of_nat v"
  by (simp add: word_eq_iff_unsigned [where ?'a = nat] unat_of_nat)

lemma low_byte: "(ucast ((w :: 'a :: len word) AND 0xFF) :: byte) = of_nat (unat w)"
proof -
  have m: "(0xFF :: 'a word) = mask 8" by (simp add: mask_eq_exp_minus_1)
  have "(ucast (w AND 0xFF) :: byte) = ucast w"
    unfolding m by (rule bit_word_eqI) (auto simp: bit_simps dest: bit_imp_le_length)
  then show ?thesis by simp
qed

lemma le_bytes_4:
  "le_bytes 4 v = [of_nat v, of_nat (v div 256), of_nat (v div 65536), of_nat (v div 16777216)]"
proof -
  have n: "(4 :: nat) = Suc (Suc (Suc (Suc 0)))" by simp
  have "le_bytes 4 v =
          [of_nat v, of_nat (v div 256), of_nat (v div 256 div 256),
           of_nat (v div 256 div 256 div 256)]"
    by (simp only: n le_bytes.simps of_nat_mod_256)
  then show ?thesis by (simp add: div_mult2_eq [symmetric])
qed

lemma le_bytes_2: "le_bytes 2 v = [of_nat v, of_nat (v div 256)]"
proof -
  have n: "(2 :: nat) = Suc (Suc 0)" by simp
  show ?thesis by (simp only: n le_bytes.simps of_nat_mod_256)
qed

lemma frame_le_bytes:
  "frame opcode sector amount = opcode # le_bytes 4 (unat sector) @ le_bytes 2 (unat amount)"
proof -
  have d: "unat (drop_bit n w) = unat w div 2 ^ n" for n and w :: "'a :: len word"
    unfolding unat_drop_bit_eq by (rule drop_bit_eq_div)
  show ?thesis
    using d [of 8 sector] d [of 16 sector] d [of 24 sector] d [of 8 amount]
    by (simp only: frame_def le_bytes_4 le_bytes_2 low_byte append.simps) simp
qed

lemma from_le_le_bytes: "from_le (le_bytes n v) = v mod 256 ^ n"
proof (induction n arbitrary: v)
  case 0
  show ?case by simp
next
  case (Suc n)
  have "unat (of_nat (v mod 256) :: byte) = v mod 256"
    by (simp add: unat_of_nat)
  then show ?case
    by (simp add: Suc mod_mult2_eq)
qed

section \<open>The path of a validated request\<close>

lemma read_validated:
  assumes "validated k pos amount"
  shows "readLogicalDiskAligned k com pos dst amount arrivals =
           Inr (if wait_pred amount (deliver amount arrivals (start dst))
                then Some amount else None,
                com\<lparr>messageCallbacks :=
                      filter (\<lambda>s. fst s \<noteq> nextCallbackId com)
                        (messageCallbacks com @ [(nextCallbackId com, NeoMemorySDRead)]),
                    nextCallbackId := Suc (nextCallbackId com),
                    written := written com @
                      [frame (HostPC_from_SDCC1 k) (ucast (pos div SectorSize k)) amount]\<rparr>,
                into (deliver amount arrivals (start dst)))"
  using assms
  by (simp add: validated_def readLogicalDiskAligned_def gt_max_iff mod_min_iff
      sector_fits_iff unat_div addMessageCallback_def rawWrite_def removeMessageCallback_def
      Let_def)

lemma filter_fresh:
  "\<forall>s \<in> set xs. fst s < (n :: nat) \<Longrightarrow> filter (\<lambda>s. fst s \<noteq> n) xs = xs"
  by (induction xs) auto

section \<open>The callback, case by case\<close>

lemma cb_SD:
  "cb amount (NeoReadMemorySDMessage d) t =
     (if unat amount < (unat (copied t) + length d) mod 2 ^ 64 then (t\<lparr>error := True\<rparr>, True)
      else (t\<lparr>into := memcpy (into t) (unat (copied t)) d,
              copied := copied t + of_nat (length d)\<rparr>,
            (unat (copied t) + length d) mod 2 ^ 32 = unat amount))"
  by (simp add: cb_def word_less_nat_alt sum64 sum32 ucast_eq_iff Let_def)

lemma cb_Other: "cb amount OtherMessage t = (t\<lparr>error := True\<rparr>, True)"
  by (simp add: cb_def)

lemma payload_below_2_64:
  assumes "length d \<le> max_size"
  shows "unat (copied t) + length d < 2 ^ 64"
proof -
  have "unat (copied t) + length d < 2 ^ 32 + 2 ^ 63"
    using u32_lt [of "copied t"] assms by (simp add: max_size_def)
  then show ?thesis by simp
qed

lemma cb_fits:
  assumes "unat amount < 2 ^ 32" and "unat (copied t) + length d \<le> unat amount"
  shows "cb amount (NeoReadMemorySDMessage d) t =
           (t\<lparr>into := memcpy (into t) (unat (copied t)) d,
              copied := copied t + of_nat (length d)\<rparr>,
            unat (copied t) + length d = unat amount)"
    and "unat (copied t + of_nat (length d)) = unat (copied t) + length d"
proof -
  from assms have a: "unat (copied t) + length d < 2 ^ 32" by simp
  then have b: "unat (copied t) + length d < 2 ^ 64" by simp
  show "cb amount (NeoReadMemorySDMessage d) t =
           (t\<lparr>into := memcpy (into t) (unat (copied t)) d,
              copied := copied t + of_nat (length d)\<rparr>,
            unat (copied t) + length d = unat amount)"
    using assms(2) a b by (simp add: cb_SD)
  show "unat (copied t + of_nat (length d)) = unat (copied t) + length d"
    using a by (simp add: sum32)
qed

lemma cb_overflow:
  assumes "length d \<le> max_size" and "unat amount < unat (copied t) + length d"
  shows "cb amount (NeoReadMemorySDMessage d) t = (t\<lparr>error := True\<rparr>, True)"
  using assms(2) payload_below_2_64 [OF assms(1), of t] by (simp add: cb_SD)

lemma cb_step_bounds:
  assumes "well_formed m" and "unat (copied t) \<le> unat amount"
  shows "unat (copied (fst (cb amount m t))) \<le> unat amount"
    and "into (fst (cb amount m t)) i \<noteq> into t i \<Longrightarrow>
           unat (copied t) \<le> i \<and> i < unat (copied t) + payload_size m \<and>
           unat (copied t) + payload_size m \<le> unat amount"
proof -
  show "unat (copied (fst (cb amount m t))) \<le> unat amount"
  proof (cases m)
    case OtherMessage
    then show ?thesis using assms(2) by (simp add: cb_Other)
  next
    case (NeoReadMemorySDMessage d)
    then have "length d \<le> max_size" using assms(1) by (simp add: well_formed_def)
    then have b: "unat (copied t) + length d < 2 ^ 64" by (rule payload_below_2_64)
    show ?thesis
    proof (cases "unat amount < unat (copied t) + length d")
      case True
      then show ?thesis using NeoReadMemorySDMessage assms(2) b by (simp add: cb_SD)
    next
      case False
      have "(unat (copied t) + length d) mod 2 ^ 32 \<le> unat (copied t) + length d"
        by (rule mod_less_eq_dividend)
      also have "\<dots> \<le> unat amount" using False by simp
      finally have "unat (copied t + of_nat (length d)) \<le> unat amount"
        by (simp only: sum32)
      then show ?thesis using NeoReadMemorySDMessage False b by (simp add: cb_SD)
    qed
  qed
  show "unat (copied t) \<le> i \<and> i < unat (copied t) + payload_size m \<and>
        unat (copied t) + payload_size m \<le> unat amount"
    if w: "into (fst (cb amount m t)) i \<noteq> into t i"
  proof (cases m)
    case OtherMessage
    then show ?thesis using w by (simp add: cb_Other)
  next
    case (NeoReadMemorySDMessage d)
    then have "length d \<le> max_size" using assms(1) by (simp add: well_formed_def)
    then have b: "unat (copied t) + length d < 2 ^ 64" by (rule payload_below_2_64)
    show ?thesis using NeoReadMemorySDMessage w b
      by (auto simp: cb_SD payload_size_def memcpy_def split: if_splits)
  qed
qed

lemma deliver_bounds:
  assumes "\<forall>m \<in> set msgs. well_formed m" and "unat (copied t) \<le> unat amount"
  shows "unat (copied (deliver amount msgs t)) \<le> unat amount \<and>
         (\<forall>i. unat amount \<le> i \<longrightarrow> into (deliver amount msgs t) i = into t i)"
  using assms
proof (induction msgs arbitrary: t)
  case Nil
  then show ?case by simp
next
  case (Cons m ms)
  let ?u = "fst (cb amount m t)"
  from Cons.prems have wm: "well_formed m" and wms: "\<forall>x \<in> set ms. well_formed x" by simp_all
  have c: "unat (copied ?u) \<le> unat amount"
    using cb_step_bounds(1) [OF wm Cons.prems(2)] .
  have f: "into ?u i = into t i" if "unat amount \<le> i" for i
    using cb_step_bounds(2) [OF wm Cons.prems(2), of i] that by force
  from Cons.IH [OF wms c] f show ?case by simp
qed

lemma deliver_chunks:
  assumes "unat amount < 2 ^ 32" and "unat (copied t) + length (concat ds) \<le> unat amount"
  shows "unat (copied (deliver amount (map NeoReadMemorySDMessage ds) t))
           = unat (copied t) + length (concat ds) \<and>
         error (deliver amount (map NeoReadMemorySDMessage ds) t) = error t \<and>
         (\<forall>i < length (concat ds).
            into (deliver amount (map NeoReadMemorySDMessage ds) t) (unat (copied t) + i)
              = concat ds ! i) \<and>
         (\<forall>i < unat (copied t).
            into (deliver amount (map NeoReadMemorySDMessage ds) t) i = into t i)"
  using assms(2)
proof (induction ds arbitrary: t)
  case Nil
  show ?case by simp
next
  case (Cons d ds)
  let ?u = "t\<lparr>into := memcpy (into t) (unat (copied t)) d, copied := copied t + of_nat (length d)\<rparr>"
  let ?r = "deliver amount (map NeoReadMemorySDMessage ds) ?u"
  from Cons.prems have fit: "unat (copied t) + length d \<le> unat amount" by simp
  have step: "fst (cb amount (NeoReadMemorySDMessage d) t) = ?u"
    by (simp add: cb_fits(1) [OF assms(1) fit])
  have cu: "unat (copied ?u) = unat (copied t) + length d"
    using cb_fits(2) [OF assms(1) fit] by simp
  have rest: "unat (copied ?u) + length (concat ds) \<le> unat amount"
    using Cons.prems cu by simp
  note ih = Cons.IH [OF rest]
  have r: "deliver amount (map NeoReadMemorySDMessage (d # ds)) t = ?r"
    by (simp add: step)
  have c: "unat (copied ?r) = unat (copied t) + length (concat (d # ds))"
    using ih cu by simp
  have e: "error ?r = error t" using ih by simp
  have lo: "into ?r i = into t i" if "i < unat (copied t)" for i
  proof -
    have "into ?r i = into ?u i" using ih that cu by simp
    then show ?thesis using that by (simp add: memcpy_def)
  qed
  have mid: "into ?r (unat (copied t) + i) = concat (d # ds) ! i"
    if "i < length (concat (d # ds))" for i
  proof (cases "i < length d")
    case True
    then have "unat (copied t) + i < unat (copied ?u)" using cu by simp
    then have "into ?r (unat (copied t) + i) = into ?u (unat (copied t) + i)"
      using ih by blast
    then show ?thesis using True by (simp add: memcpy_def nth_append)
  next
    case False
    then have j: "i - length d < length (concat ds)" using that by simp
    have "into ?r (unat (copied ?u) + (i - length d)) = concat ds ! (i - length d)"
      using ih j by blast
    moreover have "unat (copied ?u) + (i - length d) = unat (copied t) + i"
      using False cu by simp
    ultimately show ?thesis using False by (simp add: nth_append)
  qed
  show ?case unfolding r using c e lo mid by blast
qed

section \<open>Results on the disk read driver\<close>

text \<open>
  C1. The claim is that a validated call returns the requested byte count only when the
  transaction completes and returns nothing when it ends errored or timed out. Run on
  granularity 512, maximum block 8192 and sector size 512, with \<open>pos = 0\<close>,
  \<open>amount = 512\<close> and a single response that carries 1024 bytes: the callback raises
  \<open>error\<close> and copies nothing, the wait ends because its predicate accepts \<open>error\<close>,
  and the call returns \<open>amount\<close>, since line 64 tests \<open>hitTimeout\<close> alone.
\<close>

theorem errored_read_returns_amount:
  "error (deliver 512 [NeoReadMemorySDMessage (replicate 1024 0)] (start (\<lambda>_. 0))) \<and>
   readLogicalDiskAligned example_consts idle_com 0 (\<lambda>_. 0) 512
       [NeoReadMemorySDMessage (replicate 1024 0)]
     = Inr (Some 512,
            idle_com\<lparr>nextCallbackId := 1, written := [[0xE0, 0, 0, 0, 0, 0x00, 0x02]]\<rparr>,
            \<lambda>_. 0)"
proof -
  have v: "validated example_consts 0 512"
    by (simp add: validated_def example_consts_def)
  have c: "fst (cb 512 (NeoReadMemorySDMessage (replicate 1024 0)) (start (\<lambda>_. 0)))
             = (start (\<lambda>_. 0))\<lparr>error := True\<rparr>"
    by (simp add: cb_SD start_def)
  have i: "into ((start (\<lambda>_. 0))\<lparr>error := True\<rparr>) = (\<lambda>_. 0)"
    by (simp add: start_def)
  have f: "frame 0xE0 0 512 = [0xE0, 0, 0, 0, 0, 0x00, 0x02]"
    by (simp add: frame_le_bytes le_bytes_4 le_bytes_2)
  show ?thesis
    unfolding read_validated [OF v]
    by (simp add: c i f wait_pred_def idle_com_def example_consts_def)
qed

text \<open>
  C2. A request whose length exceeds the maximum block size, or whose length or offset is
  not a multiple of the minimum block granularity, fails at once: the call returns
  \<open>nullopt\<close> and leaves the communication object as it was, so no frame has been sent
  and no callback registered.
\<close>

theorem validation_failure_no_io:
  assumes "unat amount > unat (snd (getBlockSizeBounds k)) \<or>
           fst (getBlockSizeBounds k) \<noteq> 0 \<and>
           (unat amount mod unat (fst (getBlockSizeBounds k)) \<noteq> 0 \<or>
            unat pos mod unat (fst (getBlockSizeBounds k)) \<noteq> 0)"
  shows "readLogicalDiskAligned k com pos dst amount arrivals = Inr (None, com, dst)"
  using assms by (auto simp: readLogicalDiskAligned_def gt_max_iff mod_min_iff)

theorem validation_failure_no_io_witness:
  "readLogicalDiskAligned example_consts idle_com 100 (\<lambda>_. 0) 1024 [] = Inr (None, idle_com, \<lambda>_. 0) \<and>
   readLogicalDiskAligned example_consts idle_com 0 (\<lambda>_. 0) 1000 [] = Inr (None, idle_com, \<lambda>_. 0) \<and>
   readLogicalDiskAligned example_consts idle_com 0 (\<lambda>_. 0) 16384 [] = Inr (None, idle_com, \<lambda>_. 0)"
  using validation_failure_no_io [of example_consts 1024 100 idle_com "\<lambda>_. 0" "[]"]
    validation_failure_no_io [of example_consts 1000 0 idle_com "\<lambda>_. 0" "[]"]
    validation_failure_no_io [of example_consts 16384 0 idle_com "\<lambda>_. 0" "[]"]
  by (simp add: example_consts_def)




text \<open>
  C4. For a request within the maximum block size, a response chunk that fits the
  remaining amount is copied to the destination at offset \<open>copied\<close>, \<open>copied\<close> grows by
  the chunk size, \<open>error\<close> is left alone, and the callback wakes the waiter exactly when
  \<open>copied\<close> has reached \<open>amount\<close>. Hence chunks delivered in order from the start, of
  total size at most \<open>amount\<close>, leave their concatenation at the head of the destination,
  and the wait is over exactly when the total equals \<open>amount\<close>.
\<close>

theorem fitting_chunk_is_copied:
  assumes "unat amount \<le> unat (snd (getBlockSizeBounds k))"
  shows "(unat (copied t) + length d \<le> unat amount \<longrightarrow>
            (let (t', woke) = cb amount (NeoReadMemorySDMessage d) t in
               into t' = memcpy (into t) (unat (copied t)) d \<and>
               (\<forall>i < length d. into t' (unat (copied t) + i) = d ! i) \<and>
               unat (copied t') = unat (copied t) + length d \<and>
               error t' = error t \<and>
               woke = (unat (copied t') = unat amount) \<and>
               wait_pred amount t' = (error t \<or> unat (copied t') = unat amount))) \<and>
         (length (concat ds) \<le> unat amount \<longrightarrow>
            (let t' = deliver amount (map NeoReadMemorySDMessage ds) (start dst) in
               map (into t') [0..<length (concat ds)] = concat ds \<and>
               unat (copied t') = length (concat ds) \<and>
               wait_pred amount t' = (length (concat ds) = unat amount)))"
proof -
  have a: "unat amount < 2 ^ 32" using assms by (rule max_lt)
  have one: "(let (t', woke) = cb amount (NeoReadMemorySDMessage d) t in
               into t' = memcpy (into t) (unat (copied t)) d \<and>
               (\<forall>i < length d. into t' (unat (copied t) + i) = d ! i) \<and>
               unat (copied t') = unat (copied t) + length d \<and>
               error t' = error t \<and>
               woke = (unat (copied t') = unat amount) \<and>
               wait_pred amount t' = (error t \<or> unat (copied t') = unat amount))"
    if fit: "unat (copied t) + length d \<le> unat amount"
    using cb_fits(2) [OF a fit]
    by (simp add: cb_fits(1) [OF a fit] wait_pred_def ucast_eq_iff memcpy_def)
  have many: "(let t' = deliver amount (map NeoReadMemorySDMessage ds) (start dst) in
               map (into t') [0..<length (concat ds)] = concat ds \<and>
               unat (copied t') = length (concat ds) \<and>
               wait_pred amount t' = (length (concat ds) = unat amount))"
    if tot: "length (concat ds) \<le> unat amount"
  proof -
    let ?r = "deliver amount (map NeoReadMemorySDMessage ds) (start dst)"
    have z: "unat (copied (start dst)) + length (concat ds) \<le> unat amount"
      using tot by (simp add: start_def)
    have s0: "unat (copied (start dst)) = 0" "error (start dst) = False"
      by (simp_all add: start_def)
    note dc = deliver_chunks [OF a z, unfolded s0]
    have c: "unat (copied ?r) = length (concat ds)" using dc by simp
    have e: "\<not> error ?r" using dc by simp
    have n: "\<forall>i < length (concat ds). into ?r i = concat ds ! i" using dc by simp
    have m: "map (into ?r) [0..<length (concat ds)] = concat ds"
      by (rule nth_equalityI) (simp_all add: n)
    show ?thesis using m c e by (simp add: wait_pred_def ucast_eq_iff Let_def)
  qed
  from one many show ?thesis by blast
qed

theorem fitting_chunk_is_copied_witness:
  "fst (cb 1024 (NeoReadMemorySDMessage [7, 8]) (start (\<lambda>_. 0)))
     = \<lparr>copied = 2, error = False, into = memcpy (\<lambda>_. 0) 0 [7, 8]\<rparr> \<and>
   map (into (deliver 1024 [NeoReadMemorySDMessage [1, 2], NeoReadMemorySDMessage [3]] (start (\<lambda>_. 0))))
     [0..<Suc (Suc (Suc 0))] = [1, 2, 3]"
  using fitting_chunk_is_copied
    [of 1024 example_consts "start (\<lambda>_. 0)" "[7, 8]" "[[1, 2], [3]]" "\<lambda>_. 0"]
  by (simp add: example_consts_def start_def Let_def cb_def)

text \<open>
  C5. A response that is not a \<open>NeoReadMemorySDMessage\<close>, or whose payload would take
  \<open>copied\<close> past \<open>amount\<close>, makes the callback raise \<open>error\<close> and wake the waiter at
  once, whose predicate then holds; the destination and \<open>copied\<close> stay as they were.
\<close>

theorem oversized_or_foreign_response_errors:
  assumes "msg = OtherMessage \<or>
           (\<exists>d. msg = NeoReadMemorySDMessage d \<and> length d \<le> max_size \<and>
                unat amount < unat (copied t) + length d)"
  shows "cb amount msg t = (t\<lparr>error := True\<rparr>, True) \<and>
         wait_pred amount (fst (cb amount msg t)) \<and>
         into (fst (cb amount msg t)) = into t \<and>
         copied (fst (cb amount msg t)) = copied t"
proof -
  have "cb amount msg t = (t\<lparr>error := True\<rparr>, True)"
    using assms by (auto simp: cb_Other cb_overflow)
  then show ?thesis by (simp add: wait_pred_def)
qed

theorem oversized_or_foreign_response_errors_witness:
  "cb 4 (NeoReadMemorySDMessage [1, 2, 3]) \<lparr>copied = 2, error = False, into = (\<lambda>_. 0)\<rparr>
     = (\<lparr>copied = 2, error = True, into = (\<lambda>_. 0)\<rparr>, True) \<and>
   cb 4 OtherMessage \<lparr>copied = 2, error = False, into = (\<lambda>_. 0)\<rparr>
     = (\<lparr>copied = 2, error = True, into = (\<lambda>_. 0)\<rparr>, True)"
  using oversized_or_foreign_response_errors
    [of "NeoReadMemorySDMessage [1, 2, 3]" 4 "\<lparr>copied = 2, error = False, into = (\<lambda>_. 0)\<rparr>"]
    oversized_or_foreign_response_errors
    [of OtherMessage 4 "\<lparr>copied = 2, error = False, into = (\<lambda>_. 0)\<rparr>"]
  by (simp add: max_size_def)

text \<open>
  C6. Once length and offset have passed the alignment checks, the sector index is the
  64-bit quotient of the offset by the sector size. If the quotient is below \<open>2 ^ 32\<close>
  the request goes out and the sector field of the one frame sent holds exactly that
  quotient; otherwise the call returns \<open>nullopt\<close> with the communication object
  untouched.
\<close>

theorem sector_index_checked:
  assumes "fst (getBlockSizeBounds k) \<noteq> 0" and "SectorSize k \<noteq> 0"
    and "unat amount \<le> unat (snd (getBlockSizeBounds k))"
    and "unat amount mod unat (fst (getBlockSizeBounds k)) = 0"
    and "unat pos mod unat (fst (getBlockSizeBounds k)) = 0"
  shows "if unat pos div unat (SectorSize k) < 2 ^ 32
         then \<exists>r com' mem f.
                readLogicalDiskAligned k com pos dst amount arrivals = Inr (r, com', mem) \<and>
                written com' = written com @ [f] \<and>
                from_le (take 4 (tl f)) = unat pos div unat (SectorSize k)
         else readLogicalDiskAligned k com pos dst amount arrivals = Inr (None, com, dst)"
proof (cases "unat pos div unat (SectorSize k) < 2 ^ 32")
  case True
  with assms have v: "validated k pos amount" by (simp add: validated_def)
  have s: "unat (ucast (pos div SectorSize k) :: 32 word) = unat pos div unat (SectorSize k)"
    using True by (simp add: sector_value)
  have "from_le (le_bytes 4 (unat pos div unat (SectorSize k))) = unat pos div unat (SectorSize k)"
    using True by (simp add: from_le_le_bytes)
  moreover have "length (le_bytes 4 x) = 4" for x by (simp add: le_bytes_4)
  ultimately show ?thesis
    using True by (simp add: read_validated [OF v] frame_le_bytes s)
next
  case False
  then show ?thesis
    using assms
    by (simp add: readLogicalDiskAligned_def gt_max_iff mod_min_iff sector_fits_iff unat_div)
qed

theorem sector_index_checked_witness:
  "readLogicalDiskAligned example_consts idle_com 0x20000000000 (\<lambda>_. 0) 1024 []
     = Inr (None, idle_com, \<lambda>_. 0) \<and>
   (\<exists>r com' mem f.
      readLogicalDiskAligned example_consts idle_com 0x100000 (\<lambda>_. 0) 1024 [] = Inr (r, com', mem) \<and>
      written com' = [f] \<and> from_le (take 4 (tl f)) = 2048)"
  using sector_index_checked [of example_consts 1024 "0x20000000000" idle_com "\<lambda>_. 0" "[]"]
    sector_index_checked [of example_consts 1024 "0x100000" idle_com "\<lambda>_. 0" "[]"]
  by (simp add: example_consts_def idle_com_def)

text \<open>
  C7. Whatever arrives while a validated call waits, and so whether it ends completed,
  errored or timed out, the call returns with the callback it registered removed again:
  the registry holds the same subscriptions after the call as before it, given that the
  ids in the registry are below the next id to be issued.
\<close>

theorem subscription_removed_on_every_exit:
  assumes "validated k pos amount"
    and "\<forall>s \<in> set (messageCallbacks com). fst s < nextCallbackId com"
  shows "\<exists>r com' mem.
           readLogicalDiskAligned k com pos dst amount arrivals = Inr (r, com', mem) \<and>
           messageCallbacks com' = messageCallbacks com"
  by (simp add: read_validated [OF assms(1)] filter_fresh [OF assms(2)])

theorem subscription_removed_on_every_exit_witness:
  "\<exists>r com' mem.
     readLogicalDiskAligned example_consts
       \<lparr>messageCallbacks = [(0, OtherNetID), (3, NeoMemorySDRead)], nextCallbackId = 4, written = []\<rparr>
       0 (\<lambda>_. 0) 1024 [OtherMessage] = Inr (r, com', mem) \<and>
     messageCallbacks com' = [(0, OtherNetID), (3, NeoMemorySDRead)]"
proof -
  have v: "validated example_consts 0 1024"
    by (simp add: validated_def example_consts_def)
  show ?thesis
    using subscription_removed_on_every_exit [OF v,
        of "\<lparr>messageCallbacks = [(0, OtherNetID), (3, NeoMemorySDRead)], nextCallbackId = 4, written = []\<rparr>"
           "\<lambda>_. 0" "[OtherMessage]"]
    by simp
qed

text \<open>
  C9. After any sequence of callback invocations on well-formed messages, \<open>copied\<close> is at
  most \<open>amount\<close> and the destination is unchanged from offset \<open>amount\<close> on; and whatever
  the next invocation writes lies in the range from \<open>copied\<close> up to \<open>copied\<close> plus the
  chunk size, which ends at or before \<open>amount\<close>.
\<close>

theorem copied_never_exceeds_amount:
  assumes "\<forall>m \<in> set msgs. well_formed m" and "well_formed m"
  shows "let t = deliver amount msgs (start dst) in
           unat (copied t) \<le> unat amount \<and>
           (\<forall>i. unat amount \<le> i \<longrightarrow> into t i = dst i) \<and>
           (\<forall>i. into (fst (cb amount m t)) i \<noteq> into t i \<longrightarrow>
                unat (copied t) \<le> i \<and> i < unat (copied t) + payload_size m \<and>
                unat (copied t) + payload_size m \<le> unat amount)"
proof -
  let ?t = "deliver amount msgs (start dst)"
  have z: "unat (copied (start dst)) \<le> unat amount" by (simp add: start_def)
  have d: "into (start dst) = dst" by (simp add: start_def)
  have c: "unat (copied ?t) \<le> unat amount"
    using deliver_bounds [OF assms(1) z] by simp
  have f: "\<forall>i. unat amount \<le> i \<longrightarrow> into ?t i = dst i"
    using deliver_bounds [OF assms(1) z] d by simp
  have w: "\<forall>i. into (fst (cb amount m ?t)) i \<noteq> into ?t i \<longrightarrow>
             unat (copied ?t) \<le> i \<and> i < unat (copied ?t) + payload_size m \<and>
             unat (copied ?t) + payload_size m \<le> unat amount"
    using cb_step_bounds(2) [OF assms(2) c] by blast
  from c f w show ?thesis by (simp only: Let_def)
qed

theorem copied_never_exceeds_amount_witness:
  "unat (copied (deliver 4 [NeoReadMemorySDMessage [1, 2, 3], NeoReadMemorySDMessage [4, 5], OtherMessage]
           (start (\<lambda>_. 0)))) \<le> 4 \<and>
   into (deliver 4 [NeoReadMemorySDMessage [1, 2, 3], NeoReadMemorySDMessage [4, 5], OtherMessage]
           (start (\<lambda>_. 0))) 4 = 0"
  using copied_never_exceeds_amount
    [of "[NeoReadMemorySDMessage [1, 2, 3], NeoReadMemorySDMessage [4, 5], OtherMessage]"
        "NeoReadMemorySDMessage [6]" 4 "\<lambda>_. 0"]
  by (simp add: well_formed_def max_size_def Let_def)

section \<open>Results on the CAN packet layout\<close>

text \<open>
  C8, as the claim words it: were there exactly five bits between \<open>DLC\<close> and \<open>EID2\<close>, the
  widths between the first and the last field of the block would add up to five. They
  add up to six.
\<close>

theorem dlc_block_five_bits_counterexample:
  "hd dlc_block = (''DLC'', 4) \<and> last dlc_block = (''EID2'', 6) \<and>
   sum_list (map snd (butlast (tl dlc_block))) \<noteq> 5 \<and>
   4 + 5 + 6 \<noteq> icscm_bitfield_bits"
  by (simp add: dlc_block_def icscm_bitfield_bits_def)

text \<open>
  C8, amended. The dlc block is the 4-bit \<open>DLC\<close> in bits 0 to 3, six one-bit fields
  (\<open>RB0\<close>, \<open>IVRIF\<close>, \<open>HVEnable\<close>, \<open>ExtendedNetworkIndexBit\<close>, \<open>RB1\<close>, \<open>RTR\<close>) in bits 4
  to 9, and the 6-bit \<open>EID2\<close> in bits 10 to 15; together they fill the 16 bits of the
  block.
\<close>

theorem dlc_block_layout:
  "bit_ranges 0 dlc_block =
     [(''DLC'', 0, 4), (''RB0'', 4, 1), (''IVRIF'', 5, 1), (''HVEnable'', 6, 1),
      (''ExtendedNetworkIndexBit'', 7, 1), (''RB1'', 8, 1), (''RTR'', 9, 1), (''EID2'', 10, 6)] \<and>
   map snd (butlast (tl dlc_block)) = [1, 1, 1, 1, 1, 1] \<and>
   sum_list (map snd dlc_block) = icscm_bitfield_bits"
  by (simp add: dlc_block_def icscm_bitfield_bits_def)

section \<open>Results on TTY numbers and handles\<close>

lemma show_nat_digit: "n < 10 \<Longrightarrow> show_nat n = [digit_char n]"
  by (simp add: show_nat.simps)

lemma show_nat_step:
  "10 \<le> n \<Longrightarrow> show_nat n = show_nat (n div 10) @ [digit_char (n mod 10)]"
  by (subst show_nat.simps) simp

lemma digit_cases:
  "d < 10 \<Longrightarrow>
   d = 0 \<or> d = 1 \<or> d = 2 \<or> d = 3 \<or> d = 4 \<or> d = 5 \<or> d = 6 \<or> d = 7 \<or> d = 8 \<or> d = (9::nat)"
  by arith

lemma digit_char_props:
  "d < 10 \<Longrightarrow> isdigit (digit_char d) \<and> digit_value (digit_char d) = d"
  using digit_cases [of d] by (auto simp: isdigit_def digit_value_def digit_char_def)

lemma show_nat_all_digits: "\<forall>c \<in> set (show_nat n). isdigit c"
proof (induction n rule: show_nat.induct)
  case (1 n)
  show ?case
  proof (cases "n < 10")
    case True
    then show ?thesis by (simp add: show_nat_digit digit_char_props)
  next
    case False
    then have "\<forall>c \<in> set (show_nat (n div 10)). isdigit c" using 1 by simp
    moreover have "isdigit (digit_char (n mod 10))" by (simp add: digit_char_props)
    ultimately show ?thesis using False by (simp add: show_nat_step)
  qed
qed

lemma show_nat_not_Nil: "show_nat n \<noteq> []"
  by (subst show_nat.simps) simp

lemma show_nat_value: "foldl (\<lambda>a c. 10 * a + digit_value c) 0 (show_nat n) = n"
proof (induction n rule: show_nat.induct)
  case (1 n)
  show ?case
  proof (cases "n < 10")
    case True
    then show ?thesis by (simp add: show_nat_digit digit_char_props)
  next
    case False
    then have "foldl (\<lambda>a c. 10 * a + digit_value c) 0 (show_nat (n div 10)) = n div 10"
      using 1 by simp
    then show ?thesis using False by (simp add: show_nat_step digit_char_props)
  qed
qed

lemma stoul_show_nat: "n < 2 ^ 64 \<Longrightarrow> stoul (show_nat n) = Some n"
proof -
  assume b: "n < 2 ^ 64"
  have tw: "takeWhile isdigit (show_nat n) = show_nat n"
    using show_nat_all_digits [of n] by (simp add: takeWhile_eq_all_conv)
  show ?thesis using b by (simp add: stoul_def tw show_nat_not_Nil show_nat_value)
qed

lemma first_digit_show_nat: "first_digit (show_nat n @ rest) = 0"
proof (cases "show_nat n")
  case Nil
  then show ?thesis by (simp add: show_nat_not_Nil)
next
  case (Cons c cs)
  then have "isdigit c" using show_nat_all_digits [of n] by simp
  then show ?thesis using Cons by simp
qed

lemma tty_number:
  "drop (first_digit (''ttyACM'' @ show_nat n)) (''ttyACM'' @ show_nat n) = show_nat n"
  using first_digit_show_nat [of n "[]"] by (simp add: isdigit_def)

lemma sint_of_nat_small: "n < 2 ^ 31 \<Longrightarrow> sint (of_nat n :: 32 word) = int n"
proof -
  assume "n < 2 ^ 31"
  then have "int n < 2 ^ 31" by (metis of_nat_less_iff of_nat_numeral of_nat_power)
  then show ?thesis by (simp add: signed_of_nat signed_take_bit_int_eq_self)
qed

text \<open>
  C10. For a tty named \<open>ttyACM\<close> followed by the decimal numeral of \<open>n\<close>, the handle
  \<open>Find\<close> stores is \<open>n + 10\<close>, which is not 0, and \<open>HandleToTTY\<close> maps that handle
  back to \<open>/dev/ttyACM\<close> followed by the same numeral. The premise says that \<open>n + 10\<close>
  is a value of the signed 32-bit handle; the numbers the kernel gives its \<open>ttyACM\<close>
  devices are far below that.
\<close>

theorem tty_handle_round_trip:
  assumes "n + 10 < 2 ^ 31"
  shows "Find_handle (''ttyACM'' @ show_nat n) = Inr (Some (of_nat n + HANDLE_OFFSET)) \<and>
         unat (of_nat n + HANDLE_OFFSET :: 32 word) = n + 10 \<and>
         (of_nat n + HANDLE_OFFSET :: 32 word) \<noteq> 0 \<and>
         HandleToTTY (of_nat n + HANDLE_OFFSET) = Inr (''/dev/ttyACM'' @ show_nat n)"
proof -
  from assms have n: "n < 2 ^ 31" and n64: "n < 2 ^ 64" by simp_all
  have s10: "sint HANDLE_OFFSET = 10" by (simp add: HANDLE_OFFSET_def)
  have sn: "sint (of_nat n :: 32 word) = int n" using n by (rule sint_of_nat_small)
  have sh: "sint (of_nat n + HANDLE_OFFSET :: 32 word) = int n + 10"
    using sint_of_nat_small [OF assms] by (simp add: HANDLE_OFFSET_def)
  have "unat (of_nat (n + 10) :: 32 word) = n + 10"
    by (simp only: unat_of_nat) (use assms in simp)
  then have u: "unat (of_nat n + HANDLE_OFFSET :: 32 word) = n + 10"
    by (simp add: HANDLE_OFFSET_def)
  have f: "Find_handle (''ttyACM'' @ show_nat n) = Inr (Some (of_nat n + HANDLE_OFFSET))"
    using assms unfolding Find_handle_def tty_number stoul_show_nat [OF n64]
    by (simp add: sn s10)
  have nz: "(of_nat n + HANDLE_OFFSET :: 32 word) \<noteq> 0"
    using u by (metis add_is_0 unat_0 zero_neq_numeral)
  have t: "HandleToTTY (of_nat n + HANDLE_OFFSET) = Inr (''/dev/ttyACM'' @ show_nat n)"
    unfolding HandleToTTY_def sh s10 by (simp add: show_int_def)
  show ?thesis using f u nz t by simp
qed

theorem tty_handle_round_trip_witness:
  "Find_handle ''ttyACM3'' = Inr (Some 13) \<and> HandleToTTY 13 = Inr ''/dev/ttyACM3''"
  using tty_handle_round_trip [of 3]
  by (simp add: show_nat_digit digit_char_def HANDLE_OFFSET_def)

end
